theory Spec2Isabelle
  imports Main "HOL-Library.Word" "HOL-Library.Sublist"
begin

section \<open>The backup client of \<open>client_side.py\<close>\<close>

text \<open>
  The client speaks a length-prefixed binary protocol over a stream socket. This theory
  embeds its functions one by one: the request framer \<open>send_request\<close>, the response
  readers \<open>receive_status\<close>, \<open>receive_filename\<close> and \<open>receive_file\<close>, the four
  operations and the orchestrator \<open>request\<close>. Bytes are 8-bit words, Python integers are
  \<open>int\<close>, a Python \<open>str\<close> is the list of its code points (so that \<open>len\<close> counts code
  points and \<open>encode\<close> produces UTF-8 bytes), and every exception the code can raise is a
  value of \<open>exn\<close>.
\<close>

subsection \<open>Bytes, strings and exceptions\<close>

type_synonym byte = "8 word"
type_synonym bytes = "byte list"

text \<open>A Python \<open>str\<close>: its code points, in order.\<close>

type_synonym pystr = "nat list"

text \<open>A string literal of the source, as a Python \<open>str\<close>.\<close>

definition str :: "string \<Rightarrow> pystr" where
  "str s = map of_char s"

text \<open>
  The exceptions the modelled code raises. \<open>OSError\<close> stands for the subclasses of
  Python's \<open>OSError\<close> other than \<open>FileNotFoundError\<close> and \<open>ConnectionRefusedError\<close>.
  All but \<open>KeyboardInterrupt\<close> are subclasses of Python's \<open>Exception\<close>;
  \<open>KeyboardInterrupt\<close> derives from \<open>BaseException\<close> only, and stands for what an
  \<open>except Exception\<close> clause does not catch.
\<close>

datatype exn =
    StructError
  | FileNotFoundError
  | OSError
  | ValueError
  | UnicodeEncodeError
  | UnicodeDecodeError
  | ConnectionRefusedError
  | KeyboardInterrupt

fun is_Exception :: "exn \<Rightarrow> bool" where
  "is_Exception KeyboardInterrupt = False"
| "is_Exception _ = True"

subsection \<open>The enumerations\<close>

datatype OpCode = SAVE_FILE | RETRIEVE_FILE | DELETE_FILE | LIST_FILES

fun OpCode_value :: "OpCode \<Rightarrow> int" where
  "OpCode_value SAVE_FILE = 100"
| "OpCode_value RETRIEVE_FILE = 200"
| "OpCode_value DELETE_FILE = 201"
| "OpCode_value LIST_FILES = 202"

datatype ResponseStatus =
    FILE_RETRIEVED | FILE_LIST_RETRIEVED | SUCCESS
  | NO_FILE | NO_USER_FILES | SERVER_ERROR

fun ResponseStatus_value :: "ResponseStatus \<Rightarrow> nat" where
  "ResponseStatus_value FILE_RETRIEVED = 210"
| "ResponseStatus_value FILE_LIST_RETRIEVED = 211"
| "ResponseStatus_value SUCCESS = 212"
| "ResponseStatus_value NO_FILE = 1001"
| "ResponseStatus_value NO_USER_FILES = 1002"
| "ResponseStatus_value SERVER_ERROR = 1003"

datatype FieldSize = USER_ID | VERSION | OP | NAME_LEN | FILE_SIZE | STATUS

fun FieldSize_value :: "FieldSize \<Rightarrow> nat" where
  "FieldSize_value USER_ID = 4"
| "FieldSize_value VERSION = 1"
| "FieldSize_value OP = 1"
| "FieldSize_value NAME_LEN = 2"
| "FieldSize_value FILE_SIZE = 4"
| "FieldSize_value STATUS = 2"

subsection \<open>Python's \<open>struct\<close> module, little-endian standard sizes\<close>

text \<open>
  The format characters the source uses, all after \<open><\<close> (little-endian, standard size, no
  alignment): \<open>I\<close> is an unsigned 4-byte integer, \<open>H\<close> an unsigned 2-byte one, \<open>B\<close> one byte.
\<close>

datatype fmt = I | B | H

fun calcsize :: "fmt \<Rightarrow> nat" where
  "calcsize I = 4"
| "calcsize B = 1"
| "calcsize H = 2"

text \<open>The \<open>k\<close> low bytes of \<open>n\<close>, least significant first.\<close>

fun le_bytes :: "nat \<Rightarrow> nat \<Rightarrow> bytes" where
  "le_bytes 0 n = []"
| "le_bytes (Suc k) n = of_nat (n mod 256) # le_bytes k (n div 256)"

text \<open>The unsigned integer a byte string denotes, least significant byte first.\<close>

fun le_decode :: "bytes \<Rightarrow> nat" where
  "le_decode [] = 0"
| "le_decode (b # bs) = unat b + 256 * le_decode bs"

text \<open>
  \<open>struct.pack("<...", v1, ..., vn)\<close>: one value per format character; a value outside the
  range of its field, or a wrong number of values, raises \<open>struct.error\<close>.
\<close>

fun struct_pack :: "fmt list \<Rightarrow> int list \<Rightarrow> exn + bytes" where
  "struct_pack [] [] = Inr []"
| "struct_pack (f # fs) (v # vs) =
     (if 0 \<le> v \<and> v < 2 ^ (8 * calcsize f) then
        (case struct_pack fs vs of
           Inl e \<Rightarrow> Inl e
         | Inr rest \<Rightarrow> Inr (le_bytes (calcsize f) (nat v) @ rest))
      else Inl StructError)"
| "struct_pack _ _ = Inl StructError"

text \<open>
  \<open>struct.unpack("<...", buffer)\<close>: the buffer must have exactly the size of the format,
  otherwise \<open>struct.error\<close> is raised.
\<close>

fun unpack_fields :: "fmt list \<Rightarrow> bytes \<Rightarrow> nat list" where
  "unpack_fields [] buf = []"
| "unpack_fields (f # fs) buf =
     le_decode (take (calcsize f) buf) # unpack_fields fs (drop (calcsize f) buf)"

definition struct_unpack :: "fmt list \<Rightarrow> bytes \<Rightarrow> exn + nat list" where
  "struct_unpack fs buf =
     (if length buf = sum_list (map calcsize fs) then Inr (unpack_fields fs buf)
      else Inl StructError)"

text \<open>\<open>int.from_bytes(b, byteorder='big')\<close>: most significant byte first.\<close>

definition from_bytes_big :: "bytes \<Rightarrow> nat" where
  "from_bytes_big b = foldl (\<lambda>acc x. acc * 256 + unat x) 0 b"

subsection \<open>UTF-8: \<open>str.encode()\<close> and \<open>bytes.decode()\<close>\<close>

text \<open>
  \<open>str.encode()\<close> with its defaults (UTF-8, strict): a surrogate code point raises
  \<open>UnicodeEncodeError\<close>. A Python \<open>str\<close> holds no code point from \<open>0x110000\<close> on; the model
  rejects such a number in the same way.
\<close>

definition encode_cp :: "nat \<Rightarrow> exn + bytes" where
  "encode_cp c =
     (if c < 0x80 then Inr [of_nat c]
      else if c < 0x800 then Inr [of_nat (0xC0 + c div 64), of_nat (0x80 + c mod 64)]
      else if c < 0x10000 then
        (if 0xD800 \<le> c \<and> c \<le> 0xDFFF then Inl UnicodeEncodeError
         else Inr [of_nat (0xE0 + c div 4096), of_nat (0x80 + (c div 64) mod 64),
                   of_nat (0x80 + c mod 64)])
      else if c < 0x110000 then
        Inr [of_nat (0xF0 + c div 262144), of_nat (0x80 + (c div 4096) mod 64),
             of_nat (0x80 + (c div 64) mod 64), of_nat (0x80 + c mod 64)]
      else Inl UnicodeEncodeError)"

fun encode :: "pystr \<Rightarrow> exn + bytes" where
  "encode [] = Inr []"
| "encode (c # cs) =
     (case encode_cp c of
        Inl e \<Rightarrow> Inl e
      | Inr bs \<Rightarrow> (case encode cs of Inl e \<Rightarrow> Inl e | Inr rest \<Rightarrow> Inr (bs @ rest)))"

text \<open>
  \<open>bytes.decode()\<close> with its defaults (UTF-8, strict): a byte string that is not
  well-formed UTF-8 (a stray or missing continuation byte, an overlong form, a surrogate,
  a value above \<open>0x10FFFF\<close>) raises \<open>UnicodeDecodeError\<close>.
\<close>

definition is_cont :: "nat \<Rightarrow> bool" where
  "is_cont b \<longleftrightarrow> 0x80 \<le> b \<and> b < 0xC0"

text \<open>
  The first code point of a byte string (given as numbers) and the number of bytes it
  takes, or \<open>None\<close> when the string does not start with a well-formed sequence.
\<close>

definition decode_cp :: "nat list \<Rightarrow> (nat \<times> nat) option" where
  "decode_cp bs =
     (case bs of
        [] \<Rightarrow> None
      | b0 # r0 \<Rightarrow>
          if b0 < 0x80 then Some (b0, 1)
          else if b0 < 0xC0 then None
          else if b0 < 0xE0 then
            (case r0 of
               b1 # _ \<Rightarrow>
                 let c = (b0 - 0xC0) * 64 + (b1 - 0x80)
                 in if is_cont b1 \<and> 0x80 \<le> c then Some (c, 2) else None
             | _ \<Rightarrow> None)
          else if b0 < 0xF0 then
            (case r0 of
               b1 # b2 # _ \<Rightarrow>
                 let c = (b0 - 0xE0) * 4096 + (b1 - 0x80) * 64 + (b2 - 0x80)
                 in if is_cont b1 \<and> is_cont b2 \<and> 0x800 \<le> c \<and> \<not> (0xD800 \<le> c \<and> c \<le> 0xDFFF)
                    then Some (c, 3) else None
             | _ \<Rightarrow> None)
          else if b0 < 0xF8 then
            (case r0 of
               b1 # b2 # b3 # _ \<Rightarrow>
                 let c = (b0 - 0xF0) * 262144 + (b1 - 0x80) * 4096 + (b2 - 0x80) * 64 + (b3 - 0x80)
                 in if is_cont b1 \<and> is_cont b2 \<and> is_cont b3 \<and> 0x10000 \<le> c \<and> c < 0x110000
                    then Some (c, 4) else None
             | _ \<Rightarrow> None)
          else None)"

lemma decode_cp_consumes: "decode_cp bs = Some (c, k) \<Longrightarrow> 0 < k \<and> k \<le> length bs"
  by (auto simp: decode_cp_def Let_def split: list.splits if_splits)

text \<open>Decoding proceeds code point by code point, until the bytes are used up.\<close>

function decode_from :: "nat list \<Rightarrow> exn + pystr" where
  "decode_from bs =
     (if bs = [] then Inr []
      else
        (case decode_cp bs of
           None \<Rightarrow> Inl UnicodeDecodeError
         | Some (c, k) \<Rightarrow>
             (case decode_from (drop k bs) of
                Inl e \<Rightarrow> Inl e
              | Inr cs \<Rightarrow> Inr (c # cs))))"
  by pat_completeness auto
termination
  by (relation "measure length") (auto dest: decode_cp_consumes)

declare decode_from.simps [simp del]

definition decode :: "bytes \<Rightarrow> exn + pystr" where
  "decode bs = decode_from (map unat bs)"

subsection \<open>The world outside: socket, file system, console\<close>

text \<open>
  One connection and its surroundings. The peer delivers the segments of \<open>incoming\<close> in
  order and then closes the stream; \<open>sent\<close> collects the byte strings handed to
  \<open>socket.send\<close>; \<open>files\<close> holds the content of the regular files, by path (a path is
  taken as it is written: two paths are two files), and
  \<open>open_errno\<close> what the operating system answers when it refuses to open a path in a
  mode, for a reason the model does not track (a missing directory, a directory in the
  place of the file, permissions, a name that is too long);
  \<open>connect_error\<close> tells what \<open>socket.connect\<close> raises for an address, if anything;
  \<open>sock_closed\<close> tells whether the socket object has been closed; \<open>stdout\<close> holds
  the printed lines and \<open>stderr\<close> the tracebacks printed by \<open>traceback.print_exc\<close>.
\<close>

text \<open>The two modes in which the client opens files.\<close>

datatype mode = rb | wb

text \<open>
  Error numbers of \<open>open\<close>: \<open>ENOENT\<close> becomes \<open>FileNotFoundError\<close>, the others become
  other subclasses of \<open>OSError\<close>.
\<close>

datatype errno = ENOENT | EISDIR | ENOTDIR | EACCES | ENAMETOOLONG

fun oserror :: "errno \<Rightarrow> exn" where
  "oserror ENOENT = FileNotFoundError"
| "oserror _ = OSError"

record world =
  files :: "pystr \<rightharpoonup> bytes"
  open_errno :: "pystr \<Rightarrow> mode \<Rightarrow> errno option"
  connect_error :: "pystr \<times> int \<Rightarrow> exn option"
  incoming :: "bytes list"
  sent :: "bytes list"
  stdout :: "pystr list"
  stderr :: "exn list"
  sock_closed :: bool

text \<open>A computation that may raise: its outcome, and the world it leaves behind.\<close>

type_synonym 'a result = "(exn + 'a) \<times> world"

text \<open>
  \<open>socket.recv(bufsize)\<close> on a blocking stream socket: the bytes of the next segment, at
  most \<open>bufsize\<close> of them (the rest of the segment stays for the next call), and the empty
  byte string once the peer has closed. A segment without bytes is not a delivery.
\<close>

fun recv :: "nat \<Rightarrow> bytes list \<Rightarrow> bytes \<times> bytes list" where
  "recv bufsize [] = ([], [])"
| "recv bufsize (seg # segs) =
     (if seg = [] then recv bufsize segs
      else if length seg \<le> bufsize then (seg, segs)
      else (take bufsize seg, drop bufsize seg # segs))"

definition sock_recv :: "world \<Rightarrow> nat \<Rightarrow> bytes \<times> world" where
  "sock_recv w bufsize =
     (let r = recv bufsize (incoming w) in (fst r, w\<lparr>incoming := snd r\<rparr>))"

definition sock_send :: "world \<Rightarrow> bytes \<Rightarrow> unit result" where
  "sock_send w data = (Inr (), w\<lparr>sent := sent w @ [data]\<rparr>)"

definition sock_connect :: "world \<Rightarrow> pystr \<times> int \<Rightarrow> unit result" where
  "sock_connect w address =
     (case connect_error w address of Some e \<Rightarrow> (Inl e, w) | None \<Rightarrow> (Inr (), w))"

text \<open>\<open>print(line)\<close>.\<close>

definition print :: "world \<Rightarrow> pystr \<Rightarrow> world" where
  "print w line = w\<lparr>stdout := stdout w @ [line]\<rparr>"

text \<open>
  What \<open>open(filename, mode)\<close> raises before it looks for the file, if anything: a path
  with a null character is refused by Python itself with \<open>ValueError\<close>, the empty path
  names nothing (\<open>FileNotFoundError\<close>), and for the other paths the operating system
  decides.
\<close>

definition open_raises :: "world \<Rightarrow> pystr \<Rightarrow> mode \<Rightarrow> exn option" where
  "open_raises w filename m =
     (if 0 \<in> set filename then Some ValueError
      else if filename = [] then Some FileNotFoundError
      else (case open_errno w filename m of None \<Rightarrow> None | Some err \<Rightarrow> Some (oserror err)))"

text \<open>
  \<open>open(filename, "wb")\<close> creates the file or truncates it, unless \<open>open\<close> raises.
  \<open>file.write(chunk)\<close> appends to the open file.
\<close>

definition open_wb :: "world \<Rightarrow> pystr \<Rightarrow> unit result" where
  "open_wb w filename =
     (case open_raises w filename wb of
        Some e \<Rightarrow> (Inl e, w)
      | None \<Rightarrow> (Inr (), w\<lparr>files := (files w)(filename \<mapsto> [])\<rparr>))"

definition file_write :: "world \<Rightarrow> pystr \<Rightarrow> bytes \<Rightarrow> world" where
  "file_write w filename chunk =
     w\<lparr>files := (files w)(filename \<mapsto>
          (case files w filename of None \<Rightarrow> [] | Some old \<Rightarrow> old) @ chunk)\<rparr>"

subsection \<open>The functions of the client\<close>

text \<open>
  \<open>get_file_bytes\<close>: \<open>open(filename, "rb")\<close> raises what \<open>open\<close> raises for the path,
  and \<open>FileNotFoundError\<close> when no file has that path; otherwise the whole content is
  read.
\<close>

definition get_file_bytes :: "world \<Rightarrow> pystr \<Rightarrow> exn + bytes" where
  "get_file_bytes w filename =
     (case open_raises w filename rb of
        Some e \<Rightarrow> Inl e
      | None \<Rightarrow>
          (case files w filename of
             None \<Rightarrow> Inl FileNotFoundError
           | Some content \<Rightarrow> Inr content))"

text \<open>
  \<open>send_request\<close>: the package is assembled in memory and handed to the socket in one
  \<open>send\<close> at the end; every exception is raised before that call.
\<close>

definition send_request :: "world \<Rightarrow> bytes \<Rightarrow> int \<Rightarrow> OpCode \<Rightarrow> pystr \<Rightarrow> unit result" where
  "send_request w user_id version op_code filename =
     (case
        (if filename = [] then
           struct_pack [I, B, B] [int (from_bytes_big user_id), version, OpCode_value op_code]
         else
           (case struct_pack [I, B, B, H]
                   [int (from_bytes_big user_id), version, OpCode_value op_code,
                    int (length filename)] of
              Inl e \<Rightarrow> Inl e
            | Inr package \<Rightarrow>
                (case encode filename of
                   Inl e \<Rightarrow> Inl e
                 | Inr name \<Rightarrow> Inr (package @ name))))
      of
        Inl e \<Rightarrow> (Inl e, w)
      | Inr package \<Rightarrow>
          (if op_code = SAVE_FILE then
             (case get_file_bytes w filename of
                Inl e \<Rightarrow> (Inl e, w)
              | Inr file_content \<Rightarrow>
                  (case struct_pack [I] [int (length file_content)] of
                     Inl e \<Rightarrow> (Inl e, w)
                   | Inr size_bytes \<Rightarrow> sock_send w (package @ size_bytes @ file_content)))
           else sock_send w package))"

text \<open>\<open>receive_status\<close>: one read of up to 3 bytes, unpacked as version and status.\<close>

definition receive_status :: "world \<Rightarrow> nat result" where
  "receive_status w =
     (let (header, w1) = sock_recv w (FieldSize_value VERSION + FieldSize_value STATUS)
      in case struct_unpack [B, H] header of
           Inl e \<Rightarrow> (Inl e, w1)
         | Inr vals \<Rightarrow> (Inr (vals ! 1), w1))"

text \<open>\<open>receive_filename\<close>: one read for the length, one read for the name.\<close>

definition receive_filename :: "world \<Rightarrow> pystr result" where
  "receive_filename w =
     (let (len_bytes, w1) = sock_recv w (FieldSize_value NAME_LEN)
      in case struct_unpack [H] len_bytes of
           Inl e \<Rightarrow> (Inl e, w1)
         | Inr vals \<Rightarrow>
             (let name_len = vals ! 0;
                  (name, w2) = sock_recv w1 name_len
              in case decode name of
                   Inl e \<Rightarrow> (Inl e, w2)
                 | Inr filename \<Rightarrow> (Inr filename, w2)))"

text \<open>The chunk size of \<open>receive_file\<close>.\<close>

definition buffer_size :: nat where
  "buffer_size = 2 ^ 12"

lemma recv_concat: "recv n segs = (chunk, rest) \<Longrightarrow> concat segs = chunk @ concat rest"
  by (induction segs) (auto split: if_splits)

text \<open>
  The loop of \<open>receive_file\<close>: while bytes are outstanding, read up to \<open>buffer_size\<close>
  bytes, stop at an empty read, else write the chunk and count it off. The counter is a
  Python integer and may go below zero.
\<close>

function receive_loop :: "int \<Rightarrow> pystr \<Rightarrow> world \<Rightarrow> world" where
  "receive_loop file_size filename w =
     (if file_size > 0 then
        (let r = sock_recv w buffer_size; chunk = fst r; w1 = snd r
         in if chunk = [] then w1
            else receive_loop (file_size - int (length chunk)) filename
                   (file_write w1 filename chunk))
      else w)"
  by pat_completeness auto
termination
proof (relation "measure (\<lambda>(file_size, filename, w). length (concat (incoming w)))")
  show "wf (measure (\<lambda>(file_size, filename, w). length (concat (incoming w))))"
    by simp
next
  fix file_size :: int and filename :: pystr and w :: world and r chunk w1
  assume r: "r = sock_recv w buffer_size" and c: "chunk = fst r" and w1: "w1 = snd r"
    and ne: "chunk \<noteq> []"
  obtain rest where rv: "recv buffer_size (incoming w) = (chunk, rest)"
    using r c by (cases "recv buffer_size (incoming w)") (simp add: sock_recv_def Let_def)
  have "incoming w1 = rest"
    using r w1 rv by (simp add: sock_recv_def Let_def)
  moreover have "concat (incoming w) = chunk @ concat rest"
    using rv by (rule recv_concat)
  ultimately show "((file_size - int (length chunk), filename, file_write w1 filename chunk),
        (file_size, filename, w)) \<in> measure (\<lambda>(file_size, filename, w). length (concat (incoming w)))"
    using ne by (simp add: file_write_def)
qed

declare receive_loop.simps [simp del]

text \<open>
  \<open>receive_file\<close>: the declared size is read and unpacked first, then the sink is opened
  and the loop runs.
\<close>

definition receive_file :: "world \<Rightarrow> pystr \<Rightarrow> unit result" where
  "receive_file w filename =
     (let (size_bytes, w1) = sock_recv w (FieldSize_value FILE_SIZE)
      in case struct_unpack [I] size_bytes of
           Inl e \<Rightarrow> (Inl e, w1)
         | Inr vals \<Rightarrow>
             (let file_size = int (vals ! 0)
              in case open_wb w1 filename of
                   (Inl e, w2) \<Rightarrow> (Inl e, w2)
                 | (Inr u, w2) \<Rightarrow> (Inr (), receive_loop file_size filename w2)))"

text \<open>The four operations: send the request, read the status, interpret it.\<close>

definition request_file_list :: "world \<Rightarrow> bytes \<Rightarrow> int \<Rightarrow> unit result" where
  "request_file_list w user_id version =
     (case send_request w user_id version LIST_FILES [] of
        (Inl e, w1) \<Rightarrow> (Inl e, w1)
      | (Inr u, w1) \<Rightarrow>
          (case receive_status w1 of
             (Inl e, w2) \<Rightarrow> (Inl e, w2)
           | (Inr status, w2) \<Rightarrow>
               if status = ResponseStatus_value FILE_LIST_RETRIEVED then
                 (case receive_filename w2 of
                    (Inl e, w3) \<Rightarrow> (Inl e, w3)
                  | (Inr filename, w3) \<Rightarrow>
                      (case receive_file w3 filename of
                         (Inl e, w4) \<Rightarrow> (Inl e, w4)
                       | (Inr u, w4) \<Rightarrow>
                           (case get_file_bytes w4 filename of
                              Inl e \<Rightarrow> (Inl e, w4)
                            | Inr file_content \<Rightarrow>
                                (let w5 = print w4 (str ''List of files on server:'')
                                 in case decode file_content of
                                      Inl e \<Rightarrow> (Inl e, w5)
                                    | Inr listing \<Rightarrow> (Inr (), print w5 listing)))))
               else if status = ResponseStatus_value NO_USER_FILES then
                 (Inr (), print w2 (str ''No files on server''))
               else (Inr (), print w2 (str ''Wrong status code''))))"

definition request_file_save :: "world \<Rightarrow> bytes \<Rightarrow> int \<Rightarrow> pystr \<Rightarrow> unit result" where
  "request_file_save w user_id version filename =
     (case send_request w user_id version SAVE_FILE filename of
        (Inl e, w1) \<Rightarrow> (Inl e, w1)
      | (Inr u, w1) \<Rightarrow>
          (case receive_status w1 of
             (Inl e, w2) \<Rightarrow> (Inl e, w2)
           | (Inr status, w2) \<Rightarrow>
               if status = ResponseStatus_value SUCCESS then
                 (case receive_filename w2 of
                    (Inl e, w3) \<Rightarrow> (Inl e, w3)
                  | (Inr filename', w3) \<Rightarrow>
                      (Inr (), print w3 (str ''Saved '' @ filename' @ str '' to server'')))
               else if status = ResponseStatus_value NO_FILE then
                 (Inr (), print w2 (str ''No such file '' @ filename @ str '' on client''))
               else (Inr (), print w2 (str ''Wrong status code''))))"

text \<open>The name of the staging file of \<open>request_file_retrieve\<close>.\<close>

definition tmp :: pystr where
  "tmp = str ''tmp''"

definition request_file_retrieve :: "world \<Rightarrow> bytes \<Rightarrow> int \<Rightarrow> pystr \<Rightarrow> unit result" where
  "request_file_retrieve w user_id version filename =
     (case send_request w user_id version RETRIEVE_FILE filename of
        (Inl e, w1) \<Rightarrow> (Inl e, w1)
      | (Inr u, w1) \<Rightarrow>
          (case receive_status w1 of
             (Inl e, w2) \<Rightarrow> (Inl e, w2)
           | (Inr status, w2) \<Rightarrow>
               if status = ResponseStatus_value FILE_RETRIEVED then
                 (case receive_filename w2 of
                    (Inl e, w3) \<Rightarrow> (Inl e, w3)
                  | (Inr filename', w3) \<Rightarrow>
                      (case receive_file w3 tmp of
                         (Inl e, w4) \<Rightarrow> (Inl e, w4)
                       | (Inr u, w4) \<Rightarrow>
                           (Inr (), print w4 (str ''Retrieved '' @ filename' @ str '' from server''))))
               else if status = ResponseStatus_value NO_FILE then
                 (Inr (), print w2 (str ''No such file on server''))
               else (Inr (), print w2 (str ''Wrong status code''))))"

definition request_file_delete :: "world \<Rightarrow> bytes \<Rightarrow> int \<Rightarrow> pystr \<Rightarrow> unit result" where
  "request_file_delete w user_id version filename =
     (case send_request w user_id version DELETE_FILE filename of
        (Inl e, w1) \<Rightarrow> (Inl e, w1)
      | (Inr u, w1) \<Rightarrow>
          (case receive_status w1 of
             (Inl e, w2) \<Rightarrow> (Inl e, w2)
           | (Inr status, w2) \<Rightarrow>
               if status = ResponseStatus_value SUCCESS then
                 (case receive_filename w2 of
                    (Inl e, w3) \<Rightarrow> (Inl e, w3)
                  | (Inr filename', w3) \<Rightarrow>
                      (Inr (), print w3 (str ''Deleted '' @ filename' @ str '' from server'')))
               else if status = ResponseStatus_value NO_FILE then
                 (Inr (), print w2 (str ''No such file on server''))
               else (Inr (), print w2 (str ''Wrong status code''))))"

text \<open>
  \<open>request\<close>, the orchestrator. \<open>fname\<close> is \<open>request_function.__name__\<close> and \<open>args\<close>
  the tuple \<open>*args\<close>. The \<open>with\<close> block creates the socket and closes it on the way
  out, whatever happened inside; the \<open>try\<close> inside it covers \<open>connect\<close> and the call of
  the request function, and its \<open>except Exception\<close> clause prints the name of the function
  and the traceback. An exception the clause does not catch leaves \<open>request\<close> after the
  socket has been closed.
\<close>

definition request ::
  "pystr \<Rightarrow> (world \<Rightarrow> bytes \<Rightarrow> 'a \<Rightarrow> unit result) \<Rightarrow> pystr \<Rightarrow> int \<Rightarrow> bytes \<Rightarrow> 'a \<Rightarrow>
   world \<Rightarrow> unit result" where
  "request fname request_function server_ip server_port user_id args w =
     (let client_socket = w\<lparr>sock_closed := False\<rparr>;
          (r, w1) =
            (case sock_connect client_socket (server_ip, server_port) of
               (Inl e, w') \<Rightarrow> (Inl e, w')
             | (Inr u, w') \<Rightarrow> request_function w' user_id args);
          (r', w2) =
            (case r of
               Inl e \<Rightarrow>
                 if is_Exception e then
                   (Inr (), (print w1 (fname @ str '' failed:''))\<lparr>stderr := stderr w1 @ [e]\<rparr>)
                 else (Inl e, w1)
             | Inr u \<Rightarrow> (Inr (), w1))
      in (r', w2\<lparr>sock_closed := True\<rparr>))"

text \<open>
  A world with no files, where the operating system refuses no path, with no pending input
  and nothing sent, for the examples.
\<close>

definition empty_world :: world where
  "empty_world = \<lparr>files = Map.empty, open_errno = (\<lambda>filename m. None),
     connect_error = (\<lambda>address. None), incoming = [], sent = [],
     stdout = [], stderr = [], sock_closed = False\<rparr>"

section \<open>Properties\<close>

subsection \<open>Packing and byte order\<close>

lemma length_le_bytes [simp]: "length (le_bytes k n) = k"
  by (induction k arbitrary: n) auto

lemma le_bytes_numeral:
  "le_bytes (numeral k) n = of_nat (n mod 256) # le_bytes (pred_numeral k) (n div 256)"
  by (simp add: numeral_eq_Suc [of k])

lemma struct_pack_length:
  "struct_pack fs vs = Inr bs \<Longrightarrow> length bs = sum_list (map calcsize fs)"
  by (induction fs vs arbitrary: bs rule: struct_pack.induct) (auto split: if_splits sum.splits)

lemma list4: "length (xs :: 'a list) = 4 \<Longrightarrow> \<exists>a b c d. xs = [a, b, c, d]"
  by (cases xs; simp; cases "tl xs"; simp; cases "tl (tl xs)"; simp; cases "tl (tl (tl xs))"; simp) 

lemma byte_lt: "unat (x :: byte) < 256"
  using unsigned_less [of x, where 'a = nat] by simp

lemma le_bytes_step: "le_bytes (Suc k) (n * 256 + unat (x :: byte)) = x # le_bytes k n"
  using byte_lt [of x] by simp

lemma from_bytes_big_4:
  "from_bytes_big [a, b, c, d] = ((unat a * 256 + unat b) * 256 + unat c) * 256 + unat d"
  by (simp add: from_bytes_big_def)

lemma le_bytes_from_bytes_big:
  assumes "length user_id = 4"
  shows "le_bytes 4 (from_bytes_big user_id) = rev user_id"
proof -
  obtain a b c d where u: "user_id = [a, b, c, d]"
    using list4 [OF assms] by blast
  have four: "(4::nat) = Suc (Suc (Suc (Suc 0)))" by simp
  have "le_bytes (Suc 0) (unat a) = [a]"
    using le_bytes_step [of 0 0 a] by simp
  then show ?thesis
    unfolding u from_bytes_big_4 four le_bytes_step by simp
qed

lemma from_bytes_big_bound: "length user_id = 4 \<Longrightarrow> from_bytes_big user_id < 2 ^ 32"
proof -
  assume "length user_id = 4"
  then obtain a b c d where u: "user_id = [a, b, c, d]"
    using list4 by blast
  show ?thesis
    unfolding u from_bytes_big_4
    using byte_lt [of a] byte_lt [of b] byte_lt [of c] byte_lt [of d] by simp
qed

lemma struct_pack_I_take:
  "struct_pack (I # fs) (v # vs) = Inr bs \<Longrightarrow> take 4 bs = le_bytes 4 (nat v)"
  by (auto split: if_splits sum.splits)

lemma send_request_Inr:
  assumes "send_request w user_id version op_code filename = (Inr u, w')"
  shows "\<exists>hdr rest. struct_pack [I, B, B] [int (from_bytes_big user_id), version, OpCode_value op_code] = Inr hdr
           \<and> w' = w\<lparr>sent := sent w @ [hdr @ rest]\<rparr>"
  using assms
  by (auto simp: send_request_def sock_send_def split: if_splits sum.splits)



lemma encode_ascii: "\<forall>c\<in>set s. c < 128 \<Longrightarrow> encode s = Inr (map of_nat s)"
  by (induction s) (auto simp: encode_cp_def)

lemma OpCode_value_range: "0 \<le> OpCode_value op_code \<and> OpCode_value op_code < 256"
  by (cases op_code) auto

lemma byte_of_int:
  assumes "0 \<le> v" "v < 256"
  shows "(of_nat (nat v mod 256) :: byte) = of_int v"
proof -
  have "nat v mod 256 = nat v"
    using assms by simp
  moreover have "(of_int v :: byte) = of_nat (nat v)"
    using assms(1) by (rule word_of_int_nat)
  ultimately show ?thesis
    by (simp only:)
qed

lemma pack_header:
  assumes "length user_id = 4" "0 \<le> version" "version < 256" "0 \<le> opv" "opv < 256"
  shows "struct_pack [I, B, B] [int (from_bytes_big user_id), version, opv]
         = Inr (rev user_id @ [of_int version, of_int opv])"
  using assms from_bytes_big_bound [of user_id]
  by (simp add: le_bytes_from_bytes_big byte_of_int)

lemma pack_header_name:
  assumes "length user_id = 4" "0 \<le> version" "version < 256" "0 \<le> opv" "opv < 256" "n < 65536"
  shows "struct_pack [I, B, B, H] [int (from_bytes_big user_id), version, opv, int n]
         = Inr (rev user_id @ [of_int version, of_int opv] @ le_bytes 2 n)"
  using assms from_bytes_big_bound [of user_id]
  by (simp add: le_bytes_from_bytes_big byte_of_int)

lemmas OpCode_value_bounds = OpCode_value_range [THEN conjunct1] OpCode_value_range [THEN conjunct2]

subsection \<open>Opening files\<close>

lemma open_raises_frame [simp]:
  "open_raises (w\<lparr>incoming := a\<rparr>) = open_raises w"
  "open_raises (w\<lparr>sent := b\<rparr>) = open_raises w"
  "open_raises (w\<lparr>stdout := c\<rparr>) = open_raises w"
  "open_raises (w\<lparr>files := d\<rparr>) = open_raises w"
  "open_raises (w\<lparr>sock_closed := e\<rparr>) = open_raises w"
  by (simp_all add: open_raises_def fun_eq_iff)

lemma open_raises_empty [simp]: "open_raises w [] m = Some FileNotFoundError"
  by (simp add: open_raises_def)

lemma get_file_bytes_empty [simp]: "get_file_bytes w [] = Inl FileNotFoundError"
  by (simp add: get_file_bytes_def)

lemma get_file_bytes_Inr:
  "get_file_bytes w filename = Inr content \<Longrightarrow> filename \<noteq> [] \<and> files w filename = Some content"
  by (auto simp: get_file_bytes_def split: option.splits)

lemma get_file_bytes_missing:
  "files w filename = None \<Longrightarrow> open_raises w filename rb = None \<Longrightarrow>
     get_file_bytes w filename = Inl FileNotFoundError"
  by (simp add: get_file_bytes_def)

lemma oserror_is_Exception [simp]: "is_Exception (oserror err)"
  by (cases err) simp_all

lemma open_raises_is_Exception: "open_raises w filename m = Some e \<Longrightarrow> is_Exception e"
  by (auto simp: open_raises_def split: if_splits option.splits)

lemma get_file_bytes_raises: "get_file_bytes w filename = Inl e \<Longrightarrow> is_Exception e"
  by (auto simp: get_file_bytes_def split: option.splits dest: open_raises_is_Exception)

lemma open_raises_empty_world:
  "open_raises empty_world filename m =
     (if 0 \<in> set filename then Some ValueError
      else if filename = [] then Some FileNotFoundError else None)"
  by (simp add: open_raises_def empty_world_def)

lemma struct_pack_raises: "struct_pack fs vs = Inl e \<Longrightarrow> e = StructError"
  by (induction fs vs rule: struct_pack.induct) (auto split: if_splits sum.splits)

lemma encode_raises: "encode s = Inl e \<Longrightarrow> e = UnicodeEncodeError"
  by (induction s) (auto simp: encode_cp_def split: if_splits sum.splits)

subsection \<open>The request frame\<close>

text \<open>
  Claim C1, as the code has it. For a 4-byte user id, a version that fits one byte and an
  ASCII filename of fewer than 65536 characters (for a Save, the name of a file that
  \<open>get_file_bytes\<close> reads, of fewer than \<open>2^32\<close> bytes), \<open>send_request\<close> sends one frame: the 6-byte header
  (user id, version, opcode), then, exactly when the filename is not empty, the 2-byte
  little-endian name length and the name's bytes, then, exactly when the opcode is
  \<open>SAVE_FILE\<close>, the 4-byte little-endian file size and the file's bytes. The name fields
  follow the filename, not the opcode.
\<close>

theorem send_request_layout:
  assumes uid: "length user_id = 4" and ver: "0 \<le> version" "version < 256"
    and ascii: "\<forall>c\<in>set filename. c < 128" and len: "length filename < 65536"
    and save: "op_code = SAVE_FILE \<Longrightarrow>
                 get_file_bytes w filename = Inr content \<and> length content < 2 ^ 32"
  shows "send_request w user_id version op_code filename =
           (Inr (), w\<lparr>sent := sent w @
              [rev user_id @ [of_int version, of_int (OpCode_value op_code)]
               @ (if filename = [] then [] else le_bytes 2 (length filename) @ map of_nat filename)
               @ (if op_code = SAVE_FILE then le_bytes 4 (length content) @ content else [])]\<rparr>)"
proof (cases "op_code = SAVE_FILE")
  case True
  with save have g: "get_file_bytes w filename = Inr content" and f: "length content < 2 ^ 32"
    by simp_all
  have ne: "filename \<noteq> []"
    using get_file_bytes_Inr [OF g] by simp
  have sz: "struct_pack [I] [int (length content)] = Inr (le_bytes 4 (length content))"
    using f by simp
  show ?thesis
    using True ne g sz
    by (simp add: send_request_def pack_header_name [OF uid ver] len encode_ascii [OF ascii]
        sock_send_def del: struct_pack.simps)
next
  case False
  then show ?thesis
    by (simp add: send_request_def pack_header [OF uid ver] pack_header_name [OF uid ver] len
        OpCode_value_bounds encode_ascii [OF ascii] sock_send_def del: struct_pack.simps)
qed

theorem send_request_layout_witness:
  "send_request (empty_world\<lparr>files := [[97] \<mapsto> [7, 8, 9]]\<rparr>) [1, 2, 3, 4] 1 SAVE_FILE [97] =
     (Inr (), empty_world\<lparr>files := [[97] \<mapsto> [7, 8, 9]],
        sent := [[4, 3, 2, 1, 1, 100, 1, 0, 97, 3, 0, 0, 0, 7, 8, 9]]\<rparr>)"
  using send_request_layout [of "[1, 2, 3, 4]" 1 "[97]" SAVE_FILE
      "empty_world\<lparr>files := [[97] \<mapsto> [7, 8, 9]]\<rparr>" "[7, 8, 9]"]
  by (simp add: empty_world_def le_bytes_numeral get_file_bytes_def open_raises_def)

text \<open>A Delete request for the empty filename is the bare header: it has no name length field.\<close>

theorem send_request_layout_counterexample:
  "send_request empty_world [1, 2, 3, 4] 1 DELETE_FILE [] =
     (Inr (), empty_world\<lparr>sent := [[4, 3, 2, 1, 1, 201]]\<rparr>)"
  by (simp add: send_request_def sock_send_def empty_world_def from_bytes_big_def le_bytes_numeral)

text \<open>
  Outside ASCII the length field counts code points, not bytes: for the one-character
  filename U+00E9 it holds 1, and 2 name bytes follow.
\<close>

lemma send_request_name_length_code_points:
  "send_request empty_world [1, 2, 3, 4] 1 DELETE_FILE [233] =
     (Inr (), empty_world\<lparr>sent := [[4, 3, 2, 1, 1, 201, 1, 0, 195, 169]]\<rparr>)"
  by (simp add: send_request_def sock_send_def empty_world_def from_bytes_big_def le_bytes_numeral
      encode_cp_def)

text \<open>
  Claim C2, as the code has it. The user id is read as a big-endian integer and packed
  little-endian: the first 4 bytes of every frame sent for a 4-byte user id are the bytes
  of the user id in reverse order.
\<close>

theorem user_id_on_wire_reversed:
  assumes "length user_id = 4"
    and "send_request w user_id version op_code filename = (Inr u, w')"
  shows "sent w' = sent w @ [last (sent w')] \<and> take 4 (last (sent w')) = rev user_id"
proof -
  obtain hdr rest where h: "struct_pack [I, B, B] [int (from_bytes_big user_id), version, OpCode_value op_code] = Inr hdr"
    and w': "w' = w\<lparr>sent := sent w @ [hdr @ rest]\<rparr>"
    using send_request_Inr [OF assms(2)] by blast
  have "take 4 hdr = rev user_id"
    using struct_pack_I_take [OF h] le_bytes_from_bytes_big [OF assms(1)] by simp
  moreover have "length hdr = 6"
    using struct_pack_length [OF h] by simp
  ultimately show ?thesis
    using w' by simp
qed

theorem user_id_on_wire_reversed_witness:
  "length [1, 2, 3, 4 :: byte] = 4 \<and>
   take 4 (last (sent (snd (send_request empty_world [1, 2, 3, 4] 1 RETRIEVE_FILE [97])))) =
     rev [1, 2, 3, 4]"
proof -
  have s: "send_request empty_world [1, 2, 3, 4] 1 RETRIEVE_FILE [97] =
      (Inr (), empty_world\<lparr>sent := [[4, 3, 2, 1, 1, 200, 1, 0, 97]]\<rparr>)"
    by (simp add: send_request_def sock_send_def empty_world_def from_bytes_big_def le_bytes_numeral encode_cp_def)
  have l: "length [1, 2, 3, 4 :: byte] = 4"
    by simp
  show ?thesis
    using user_id_on_wire_reversed [OF l s] by (simp add: s)
qed

text \<open>The user id \<open>01 02 03 04\<close> goes out as \<open>04 03 02 01\<close>.\<close>

theorem user_id_on_wire_counterexample:
  "take 4 (last (sent (snd (send_request empty_world [1, 2, 3, 4] 1 LIST_FILES [])))) = [4, 3, 2, 1]"
  by (simp add: send_request_def sock_send_def empty_world_def from_bytes_big_def le_bytes_numeral)

text \<open>
  Claim C5, as the code has it. Whatever the opcode, a frame that \<open>send_request\<close> sends
  for an empty filename is the bare 6-byte header, and a frame it sends for a filename
  that is not empty carries the 2-byte length field and then the encoded name, right after
  the header: the presence of the name fields is decided by the filename.
\<close>

theorem name_fields_follow_filename:
  assumes "send_request w user_id version op_code filename = (Inr u, w')"
  shows "\<exists>package. sent w' = sent w @ [package] \<and>
           (if filename = [] then length package = 6
            else \<exists>name. encode filename = Inr name \<and> 8 \<le> length package \<and>
                   take (length name) (drop 8 package) = name)"
proof (cases "filename = []")
  case True
  with assms show ?thesis
    by (auto simp: send_request_def sock_send_def
        dest!: struct_pack_length split: if_splits sum.splits simp del: struct_pack.simps)
next
  case False
  with assms show ?thesis
    by (auto simp: send_request_def sock_send_def
        dest!: struct_pack_length split: if_splits sum.splits simp del: struct_pack.simps)
qed

theorem name_fields_follow_filename_witness:
  "send_request empty_world [1, 2, 3, 4] 1 LIST_FILES [97] =
     (Inr (), empty_world\<lparr>sent := [[4, 3, 2, 1, 1, 202, 1, 0, 97]]\<rparr>) \<and>
   encode [97] = Inr [97] \<and>
   take 1 (drop 8 [4, 3, 2, 1, 1, 202, 1, 0, 97 :: byte]) = [97]"
proof -
  have s: "send_request empty_world [1, 2, 3, 4] 1 LIST_FILES [97] =
      (Inr (), empty_world\<lparr>sent := [[4, 3, 2, 1, 1, 202, 1, 0, 97]]\<rparr>)"
    by (simp add: send_request_def sock_send_def empty_world_def from_bytes_big_def le_bytes_numeral encode_cp_def)
  show ?thesis
    using name_fields_follow_filename [OF s] s by (simp add: encode_cp_def)
qed

text \<open>
  A Retrieve request for the empty filename has no name fields, and a List request that is
  given a filename has them.
\<close>

theorem name_fields_counterexample:
  "sent (snd (send_request empty_world [1, 2, 3, 4] 1 RETRIEVE_FILE [])) = [[4, 3, 2, 1, 1, 200]] \<and>
   sent (snd (send_request empty_world [1, 2, 3, 4] 1 LIST_FILES [97])) =
     [[4, 3, 2, 1, 1, 202, 1, 0, 97]]"
  by (simp add: send_request_def sock_send_def empty_world_def from_bytes_big_def le_bytes_numeral encode_cp_def)

text \<open>
  Claim C6, as the code has it. When \<open>get_file_bytes\<close> cannot read the named file (no
  file has that path, or \<open>open\<close> raises), \<open>send_request\<close> for a Save raises and leaves
  the world as it was, so nothing has been handed to the socket. The exception is the one
  of \<open>get_file_bytes\<close>, unless framing has failed before with \<open>struct.error\<close> or
  \<open>UnicodeEncodeError\<close>; for a well-formed request (a 4-byte user id, a one-byte version,
  a filename of fewer than 65536 characters that can be encoded) it is the one of
  \<open>get_file_bytes\<close>: \<open>FileNotFoundError\<close> for a missing file, \<open>ValueError\<close> for a path
  with a null character, another \<open>OSError\<close> when the operating system refuses the path.
\<close>

theorem save_unreadable_file_sends_nothing:
  assumes "get_file_bytes w filename = Inl e0"
  shows "\<exists>e. send_request w user_id version SAVE_FILE filename = (Inl e, w) \<and>
             (e = e0 \<or> e = StructError \<or> e = UnicodeEncodeError) \<and>
             (length user_id = 4 \<and> 0 \<le> version \<and> version < 256 \<and> length filename < 65536 \<and>
              \<not> isl (encode filename) \<longrightarrow> e = e0)"
proof (cases "length user_id = 4 \<and> 0 \<le> version \<and> version < 256 \<and> length filename < 65536 \<and>
              \<not> isl (encode filename)")
  case True
  then obtain name where "encode filename = Inr name"
    by (cases "encode filename") auto
  with True assms show ?thesis
    by (auto simp: send_request_def pack_header pack_header_name simp del: struct_pack.simps)
next
  case False
  with assms show ?thesis
    by (auto simp: send_request_def split: sum.splits
        dest!: struct_pack_raises encode_raises simp del: struct_pack.simps)
qed

theorem save_unreadable_file_witness:
  "get_file_bytes empty_world [97] = Inl FileNotFoundError \<and>
   send_request empty_world [1, 2, 3, 4] 1 SAVE_FILE [97] = (Inl FileNotFoundError, empty_world)"
proof -
  have n: "get_file_bytes empty_world [97] = Inl FileNotFoundError"
    by (simp add: get_file_bytes_def open_raises_empty_world) (simp add: empty_world_def)
  from save_unreadable_file_sends_nothing [OF n, of "[1, 2, 3, 4]" 1]
  obtain e where "send_request empty_world [1, 2, 3, 4] 1 SAVE_FILE [97] = (Inl e, empty_world)"
    and "e = FileNotFoundError"
    by (auto simp: encode_cp_def)
  with n show ?thesis by simp
qed

text \<open>
  No file has the path that consists of a null character, and a Save of that path raises
  \<open>ValueError\<close>, not \<open>FileNotFoundError\<close>.
\<close>

theorem save_missing_file_counterexample:
  "files empty_world [0] = None \<and>
   send_request empty_world [1, 2, 3, 4] 1 SAVE_FILE [0] = (Inl ValueError, empty_world)"
  by (simp add: send_request_def empty_world_def from_bytes_big_def le_bytes_numeral
      encode_cp_def get_file_bytes_def open_raises_def)

subsection \<open>Receiving a file\<close>

lemma recv_length: "length (fst (recv n segs)) \<le> n"
  by (induction segs) auto

lemma recv_empty: "recv n segs = ([], rest) \<Longrightarrow> 0 < n \<Longrightarrow> rest = []"
  by (induction segs) (auto split: if_splits)

lemma recv_whole: "seg \<noteq> [] \<Longrightarrow> length seg \<le> n \<Longrightarrow> recv n (seg # segs) = (seg, segs)"
  by simp

lemma receive_loop_unfold:
  "receive_loop file_size filename w =
     (if file_size > 0 then
        (case recv buffer_size (incoming w) of
           (chunk, rest) \<Rightarrow>
             if chunk = [] then w\<lparr>incoming := rest\<rparr>
             else receive_loop (file_size - int (length chunk)) filename
                    (file_write (w\<lparr>incoming := rest\<rparr>) filename chunk))
      else w)"
  by (subst receive_loop.simps) (simp add: sock_recv_def Let_def split: prod.split)

lemma receive_loop_effect:
  "files w filename = Some old \<Longrightarrow>
   \<exists>c rest. receive_loop file_size filename w =
              w\<lparr>incoming := rest, files := (files w)(filename \<mapsto> old @ c)\<rparr> \<and>
            concat (incoming w) = c @ concat rest \<and>
            (if 0 < file_size then int (length c) < file_size + int buffer_size else c = []) \<and>
            (int (length (concat (incoming w))) < file_size \<longrightarrow> rest = []) \<and>
            (int (length (concat (incoming w))) \<le> file_size \<longrightarrow> concat rest = [])"
proof (induction "length (concat (incoming w))" arbitrary: w old file_size rule: less_induct)
  case less
  show ?case
  proof (cases "0 < file_size")
    case False
    then have "receive_loop file_size filename w = w"
      by (subst receive_loop_unfold) simp
    moreover have "(files w)(filename \<mapsto> old) = files w"
      using less.prems by (simp add: map_upd_triv)
    ultimately have 1: "receive_loop file_size filename w =
        w\<lparr>incoming := incoming w, files := (files w)(filename \<mapsto> old @ [])\<rparr>"
      by simp
    have 2: "concat (incoming w) = [] @ concat (incoming w)"
      by simp
    have 3: "if 0 < file_size then int (length ([] :: bytes)) < file_size + int buffer_size
             else ([] :: bytes) = []"
      using False by simp
    have 4: "int (length (concat (incoming w))) < file_size \<longrightarrow> incoming w = []"
    proof
      assume "int (length (concat (incoming w))) < file_size"
      with False show "incoming w = []"
        by linarith
    qed
    have 5: "int (length (concat (incoming w))) \<le> file_size \<longrightarrow> concat (incoming w) = []"
    proof
      assume "int (length (concat (incoming w))) \<le> file_size"
      with False have "length (concat (incoming w)) = 0"
        by linarith
      then show "concat (incoming w) = []"
        by (simp only: length_0_conv)
    qed
    show ?thesis
      by (intro exI [of _ "[]"] exI [of _ "incoming w"] conjI) (fact 1 2 3 4 5)+
  next
    case pos: True
    obtain chunk rest0 where rv: "recv buffer_size (incoming w) = (chunk, rest0)"
      by (cases "recv buffer_size (incoming w)")
    have cc: "concat (incoming w) = chunk @ concat rest0"
      using rv by (rule recv_concat)
    have len: "length chunk \<le> buffer_size"
      using recv_length [of buffer_size "incoming w"] rv by simp
    show ?thesis
    proof (cases "chunk = []")
      case True
      have "rest0 = []"
        using rv True recv_empty [of buffer_size "incoming w" rest0] by (simp add: buffer_size_def)
      moreover have "receive_loop file_size filename w = w\<lparr>incoming := rest0\<rparr>"
        using pos rv True by (subst receive_loop_unfold) simp
      moreover have "(files w)(filename \<mapsto> old) = files w"
        using less.prems by (simp add: map_upd_triv)
      ultimately have 1: "receive_loop file_size filename w =
          w\<lparr>incoming := [], files := (files w)(filename \<mapsto> old @ [])\<rparr>"
        by simp
      have 2: "concat (incoming w) = [] @ concat ([] :: bytes list)"
        using cc True \<open>rest0 = []\<close> by simp
      have 3: "if 0 < file_size then int (length ([] :: bytes)) < file_size + int buffer_size
               else ([] :: bytes) = []"
        using pos by simp
      have 4: "int (length (concat (incoming w))) < file_size \<longrightarrow> ([] :: bytes list) = []"
        by simp
      have 5: "int (length (concat (incoming w))) \<le> file_size \<longrightarrow> concat ([] :: bytes list) = []"
        by simp
      show ?thesis
        by (intro exI [of _ "[]"] exI [of _ "[]"] conjI) (fact 1 2 3 4 5)+
    next
      case False
      let ?w2 = "file_write (w\<lparr>incoming := rest0\<rparr>) filename chunk"
      let ?fs = "file_size - int (length chunk)"
      have step: "receive_loop file_size filename w = receive_loop ?fs filename ?w2"
        using pos rv False by (subst receive_loop_unfold) simp
      have inc2: "incoming ?w2 = rest0" and f2: "files ?w2 = (files w)(filename \<mapsto> old @ chunk)"
        using less.prems by (simp_all add: file_write_def)
      have smaller: "length (concat (incoming ?w2)) < length (concat (incoming w))"
        using cc False inc2 by simp
      have old2: "files ?w2 filename = Some (old @ chunk)"
        using f2 by simp
      obtain c rest where
        r: "receive_loop ?fs filename ?w2 =
              ?w2\<lparr>incoming := rest, files := (files ?w2)(filename \<mapsto> (old @ chunk) @ c)\<rparr>"
        and c: "concat (incoming ?w2) = c @ concat rest"
        and b: "if 0 < ?fs then int (length c) < ?fs + int buffer_size else c = []"
        and e: "int (length (concat (incoming ?w2))) < ?fs \<longrightarrow> rest = []"
        and t: "int (length (concat (incoming ?w2))) \<le> ?fs \<longrightarrow> concat rest = []"
        using less.hyps [OF smaller old2, of ?fs] by (elim exE conjE) (rule that)
      have r': "receive_loop file_size filename w =
              w\<lparr>incoming := rest, files := (files w)(filename \<mapsto> old @ (chunk @ c))\<rparr>"
        using step r f2 by (simp add: file_write_def)
      have c': "concat (incoming w) = (chunk @ c) @ concat rest"
        using cc c inc2 by simp
      have "int (length (chunk @ c)) < file_size + int buffer_size"
        using b pos len by (auto split: if_splits)
      then have b': "if 0 < file_size then int (length (chunk @ c)) < file_size + int buffer_size
                     else chunk @ c = []"
        using pos by simp
      have total: "int (length (concat (incoming w))) =
          int (length chunk) + int (length (concat (incoming ?w2)))"
        using cc inc2 by simp
      have e': "int (length (concat (incoming w))) < file_size \<longrightarrow> rest = []"
      proof
        assume "int (length (concat (incoming w))) < file_size"
        then have "int (length (concat (incoming ?w2))) < ?fs"
          using total by linarith
        with e show "rest = []"
          by (rule mp)
      qed
      have t': "int (length (concat (incoming w))) \<le> file_size \<longrightarrow> concat rest = []"
      proof
        assume "int (length (concat (incoming w))) \<le> file_size"
        then have "int (length (concat (incoming ?w2))) \<le> ?fs"
          using total by linarith
        with t show "concat rest = []"
          by (rule mp)
      qed
      show ?thesis
        by (intro exI [of _ "chunk @ c"] exI [of _ rest] conjI) (fact r' c' b' e' t')+
    qed
  qed
qed

lemma unpack_I: "length hdr = 4 \<Longrightarrow> struct_unpack [I] hdr = Inr [le_decode hdr]"
  by (simp add: struct_unpack_def)

lemma receive_file_cases:
  "receive_file w filename =
     (case recv 4 (incoming w) of
        (hdr, payload) \<Rightarrow>
          if length hdr \<noteq> 4 then (Inl StructError, w\<lparr>incoming := payload\<rparr>)
          else
            (case open_raises w filename wb of
               Some e \<Rightarrow> (Inl e, w\<lparr>incoming := payload\<rparr>)
             | None \<Rightarrow>
                 (Inr (), receive_loop (int (le_decode hdr)) filename
                    (w\<lparr>incoming := payload, files := (files w)(filename \<mapsto> [])\<rparr>))))"
  by (simp add: receive_file_def sock_recv_def struct_unpack_def open_wb_def Let_def
      split: prod.split option.split)

lemma open_tmp [simp]: "open_raises empty_world tmp wb = None"
  by (simp add: open_raises_empty_world tmp_def str_def)

text \<open>
  Claim C3, as the code has it. \<open>receive_file\<close> is a total function: for every world, so
  for every declared length and every finite sequence of segments followed by the close of
  the stream, it returns (the loop terminates because every chunk it writes is taken from
  the stream). When it raises, no file has changed. When it returns normally, the sink
  holds a prefix of the payload bytes the peer delivered, of fewer than \<open>L + 4096\<close> bytes
  (none when \<open>L = 0\<close>), \<open>L\<close> being the declared length: a read is not capped at the
  count still outstanding, so the last chunk may carry the sink beyond \<open>L\<close>.
\<close>

theorem receive_file_bounded:
  assumes run: "receive_file w filename = (r, w')"
    and hdr: "recv 4 (incoming w) = (hdr, payload)"
  shows "case r of
           Inl e \<Rightarrow> files w' = files w
         | Inr u \<Rightarrow>
             \<exists>content. files w' = (files w)(filename \<mapsto> content) \<and>
               prefix content (concat payload) \<and>
               length content < le_decode hdr + buffer_size \<and>
               (le_decode hdr = 0 \<longrightarrow> content = [])"
proof (cases "length hdr = 4 \<and> open_raises w filename wb = None")
  case False
  then show ?thesis
    using run hdr by (auto simp: receive_file_cases split: if_splits option.splits)
next
  case True
  let ?w0 = "w\<lparr>incoming := payload, files := (files w)(filename \<mapsto> [])\<rparr>"
  let ?L = "int (le_decode hdr)"
  have r: "r = Inr ()" and w': "w' = receive_loop ?L filename ?w0"
    using run hdr True by (simp_all add: receive_file_cases)
  have "files ?w0 filename = Some []"
    by simp
  from receive_loop_effect [OF this, of ?L]
  obtain c rest where
    eq: "receive_loop ?L filename ?w0 =
           ?w0\<lparr>incoming := rest, files := (files ?w0)(filename \<mapsto> [] @ c)\<rparr>"
    and cc: "concat (incoming ?w0) = c @ concat rest"
    and b: "if 0 < ?L then int (length c) < ?L + int buffer_size else c = []"
    by blast
  have "files w' = (files w)(filename \<mapsto> c)"
    using w' eq by simp
  moreover have "prefix c (concat payload)"
    using cc by (simp add: prefix_def)
  moreover have "length c < le_decode hdr + buffer_size"
    using b by (auto simp: buffer_size_def split: if_splits)
  moreover have "le_decode hdr = 0 \<longrightarrow> c = []"
    using b by (auto split: if_splits)
  ultimately show ?thesis
    using r by auto
qed

theorem receive_file_bounded_witness:
  "recv 4 (incoming (empty_world\<lparr>incoming := [[2, 0, 0, 0], [65], [66]]\<rparr>)) =
     ([2, 0, 0, 0], [[65], [66]]) \<and>
   fst (receive_file (empty_world\<lparr>incoming := [[2, 0, 0, 0], [65], [66]]\<rparr>) tmp) = Inr () \<and>
   (\<exists>content.
      files (snd (receive_file (empty_world\<lparr>incoming := [[2, 0, 0, 0], [65], [66]]\<rparr>) tmp)) =
        (files empty_world)(tmp \<mapsto> content) \<and>
      prefix content [65, 66] \<and> length content < 2 + buffer_size)"
proof -
  let ?w = "empty_world\<lparr>incoming := [[2, 0, 0, 0], [65], [66]]\<rparr>"
  have hdr: "recv 4 (incoming ?w) = ([2, 0, 0, 0], [[65], [66]])"
    by simp
  have ok: "fst (receive_file ?w tmp) = Inr ()"
    by (simp add: receive_file_cases)
  then have run: "receive_file ?w tmp = (Inr (), snd (receive_file ?w tmp))"
    by (metis prod.collapse)
  show ?thesis
    using receive_file_bounded [OF run hdr] hdr ok by simp
qed

text \<open>With a declared length of 1 and a segment of 2 bytes, 2 bytes are written.\<close>

theorem receive_file_bounded_counterexample:
  "files (snd (receive_file (empty_world\<lparr>incoming := [[1, 0, 0, 0], [65, 66]]\<rparr>) tmp)) tmp
     = Some [65, 66]"
  by (simp add: receive_file_cases open_raises_def empty_world_def tmp_def str_def
      receive_loop_unfold file_write_def buffer_size_def)



subsection \<open>Receiving a filename\<close>

lemma decode_from_ascii: "\<forall>c\<in>set bs. c < 128 \<Longrightarrow> decode_from bs = Inr bs"
proof (induction bs)
  case Nil
  show ?case by (subst decode_from.simps) simp
next
  case (Cons b bs)
  then have "decode_cp (b # bs) = Some (b, 1)"
    by (simp add: decode_cp_def)
  with Cons show ?case
    by (subst decode_from.simps) simp
qed

lemma unat_of_nat_byte: "c < 256 \<Longrightarrow> unat (of_nat c :: byte) = c"
  by (simp add: unat_of_nat)

lemma decode_ascii: "\<forall>c\<in>set s. c < 128 \<Longrightarrow> decode (map of_nat s) = Inr s"
proof -
  assume a: "\<forall>c\<in>set s. c < 128"
  then have "map unat (map of_nat s :: bytes) = s"
    by (induction s) (simp_all add: unat_of_nat_byte)
  then show ?thesis
    using a by (simp add: decode_def decode_from_ascii)
qed

lemma le_decode_le_bytes_2: "n < 65536 \<Longrightarrow> le_decode (le_bytes 2 n) = n"
proof -
  assume "n < 65536"
  then have "n div 256 < 256" by simp
  then have "n div 256 mod 256 = n div 256" by simp
  then show ?thesis
    by (simp add: le_bytes_numeral unat_of_nat_byte)
qed

lemma unpack_H: "n < 65536 \<Longrightarrow> struct_unpack [H] (le_bytes 2 n) = Inr [n]"
  using le_decode_le_bytes_2 [of n] by (simp add: struct_unpack_def)

text \<open>
  Claim C10. \<open>receive_filename\<close> reads the name with one \<open>recv\<close>. When the bytes of an
  ASCII name arrive in two segments, the first of them is returned as the filename, with no
  error: a strict prefix of the name that was transmitted. The second segment stays in
  the stream.
\<close>

theorem receive_filename_single_read:
  assumes name: "name = p @ q" and p: "p \<noteq> []" and q: "q \<noteq> []"
    and ascii: "\<forall>c\<in>set name. c < 128" and len: "length name < 65536"
    and inc: "incoming w = le_bytes 2 (length name) # map of_nat p # map of_nat q # later"
  shows "receive_filename w = (Inr p, w\<lparr>incoming := map of_nat q # later\<rparr>) \<and> strict_prefix p name"
proof -
  have l2: "le_bytes 2 (length name) \<noteq> []" "length (le_bytes 2 (length name)) \<le> 2"
    by (simp_all add: le_bytes_numeral)
  have r1: "recv 2 (incoming w) = (le_bytes 2 (length name), map of_nat p # map of_nat q # later)"
    unfolding inc using l2 by (simp only: recv.simps if_False if_True)
  have "length p \<le> length name"
    using name by simp
  then have r2: "recv (length name) (map of_nat p # map of_nat q # later)
      = (map of_nat p, map of_nat q # later)"
    using p by simp
  have d: "decode (map of_nat p) = Inr p"
    using ascii name by (intro decode_ascii) simp
  have "receive_filename w = (Inr p, w\<lparr>incoming := map of_nat q # later\<rparr>)"
    using r1 r2 d unpack_H [OF len]
    by (simp add: receive_filename_def sock_recv_def Let_def del: recv.simps)
  moreover have "strict_prefix p name"
    using name q by (simp add: strict_prefix_def prefix_def)
  ultimately show ?thesis by simp
qed

theorem receive_filename_single_read_witness:
  "receive_filename (empty_world\<lparr>incoming := [[3, 0], [97, 98], [99]]\<rparr>) =
     (Inr [97, 98], empty_world\<lparr>incoming := [[99]]\<rparr>) \<and>
   strict_prefix [97, 98] [97, 98, 99 :: nat] \<and>
   encode [97, 98, 99] = Inr [97, 98, 99]"
  using receive_filename_single_read [of "[97, 98, 99]" "[97, 98]" "[99]"
      "empty_world\<lparr>incoming := [[3, 0], [97, 98], [99]]\<rparr>" "[]"]
  by (simp add: le_bytes_numeral encode_cp_def)

subsection \<open>The operations\<close>

lemma send_request_incoming:
  "send_request w user_id version op_code filename = (r, w') \<Longrightarrow>
     incoming w' = incoming w \<and> files w' = files w \<and> stdout w' = stdout w"
  by (auto simp: send_request_def sock_send_def split: if_splits sum.splits)

text \<open>
  Claim C7. After a Save request has been sent, if the stream delivers the 3-byte header
  with status \<open>SUCCESS\<close> (212) and then closes, \<open>request_file_save\<close> raises
  \<open>struct.error\<close> in \<open>receive_filename\<close>: no filename is returned and nothing is printed.
\<close>

theorem save_success_then_close_fails:
  assumes sent: "send_request w user_id version SAVE_FILE filename = (Inr u, w1)"
    and inc: "incoming w = [[v, 212, 0]]"
  shows "request_file_save w user_id version filename = (Inl StructError, w1\<lparr>incoming := []\<rparr>)"
proof -
  have i1: "incoming w1 = [[v, 212, 0]]"
    using send_request_incoming [OF sent] inc by simp
  have st: "receive_status w1 = (Inr 212, w1\<lparr>incoming := []\<rparr>)"
    using i1 by (simp add: receive_status_def sock_recv_def struct_unpack_def)
  have fn: "receive_filename (w1\<lparr>incoming := []\<rparr>) = (Inl StructError, w1\<lparr>incoming := []\<rparr>)"
    by (simp add: receive_filename_def sock_recv_def struct_unpack_def)
  show ?thesis
    using sent st fn by (simp add: request_file_save_def)
qed

theorem save_success_then_close_witness:
  "request_file_save (empty_world\<lparr>files := [[97] \<mapsto> [7, 8, 9]], incoming := [[1, 212, 0]]\<rparr>)
      [1, 2, 3, 4] 1 [97] =
     (Inl StructError,
      empty_world\<lparr>files := [[97] \<mapsto> [7, 8, 9]], incoming := [],
        sent := [[4, 3, 2, 1, 1, 100, 1, 0, 97, 3, 0, 0, 0, 7, 8, 9]]\<rparr>)"
proof -
  let ?w = "empty_world\<lparr>files := [[97] \<mapsto> [7, 8, 9]], incoming := [[1, 212, 0]]\<rparr>"
  have s: "send_request ?w [1, 2, 3, 4] 1 SAVE_FILE [97] =
      (Inr (), ?w\<lparr>sent := [[4, 3, 2, 1, 1, 100, 1, 0, 97, 3, 0, 0, 0, 7, 8, 9]]\<rparr>)"
    by (simp add: send_request_def sock_send_def empty_world_def from_bytes_big_def
        le_bytes_numeral encode_cp_def get_file_bytes_def open_raises_def)
  have i: "incoming ?w = [[1, 212, 0]]"
    by simp
  show ?thesis
    using save_success_then_close_fails [OF s i] by (simp add: empty_world_def)
qed

lemma receive_status_files:
  "receive_status w = (r, w') \<Longrightarrow> files w' = files w \<and> stdout w' = stdout w"
  by (auto simp: receive_status_def sock_recv_def Let_def split: prod.splits sum.splits)

lemma receive_filename_files:
  "receive_filename w = (r, w') \<Longrightarrow> files w' = files w \<and> stdout w' = stdout w"
  by (auto simp: receive_filename_def sock_recv_def Let_def split: prod.splits sum.splits)

lemma receive_loop_stdout: "stdout (receive_loop file_size filename w) = stdout w"
proof (induction file_size filename w rule: receive_loop.induct)
  case (1 file_size filename w)
  show ?case
  proof (cases "0 < file_size \<and> fst (sock_recv w buffer_size) \<noteq> []")
    case True
    then show ?thesis
      using "1.IH" [OF _ refl refl refl]
      by (subst receive_loop.simps) (simp add: Let_def file_write_def sock_recv_def)
  next
    case False
    then show ?thesis
      by (subst receive_loop.simps) (auto simp: Let_def sock_recv_def)
  qed
qed

lemma receive_file_files:
  assumes "receive_file w filename = (r, w')"
  shows "stdout w' = stdout w \<and>
         (case r of Inl e \<Rightarrow> files w' = files w
          | Inr u \<Rightarrow> \<exists>content. files w' = (files w)(filename \<mapsto> content))"
proof -
  obtain hdr payload where rv: "recv 4 (incoming w) = (hdr, payload)"
    by (cases "recv 4 (incoming w)")
  show ?thesis
  proof (cases "length hdr = 4 \<and> open_raises w filename wb = None")
    case False
    then show ?thesis
      using assms rv by (auto simp: receive_file_cases split: if_splits option.splits)
  next
    case True
    let ?w0 = "w\<lparr>incoming := payload, files := (files w)(filename \<mapsto> [])\<rparr>"
    have r: "r = Inr ()" and w': "w' = receive_loop (int (le_decode hdr)) filename ?w0"
      using assms rv True by (simp_all add: receive_file_cases)
    have "files ?w0 filename = Some []"
      by simp
    from receive_loop_effect [OF this, of "int (le_decode hdr)"]
    obtain c rest where "receive_loop (int (le_decode hdr)) filename ?w0 =
           ?w0\<lparr>incoming := rest, files := (files ?w0)(filename \<mapsto> [] @ c)\<rparr>"
      by blast
    then have "files w' = (files w)(filename \<mapsto> c)"
      using w' by simp
    moreover have "stdout w' = stdout w"
      using w' by (simp add: receive_loop_stdout)
    ultimately show ?thesis
      using r by auto
  qed
qed

lemma request_file_retrieve_cases:
  assumes "request_file_retrieve w user_id version filename = (r, w')"
  shows "(files w' = files w \<and>
            (stdout w' = stdout w \<or> stdout w' = stdout w @ [str ''No such file on server'']
             \<or> stdout w' = stdout w @ [str ''Wrong status code'']))
         \<or> (\<exists>content. files w' = (files w)(tmp \<mapsto> content))"
proof -
  obtain r1 w1 where s1: "send_request w user_id version RETRIEVE_FILE filename = (r1, w1)"
    by (cases "send_request w user_id version RETRIEVE_FILE filename")
  obtain r2 w2 where s2: "receive_status w1 = (r2, w2)"
    by (cases "receive_status w1")
  obtain r3 w3 where s3: "receive_filename w2 = (r3, w3)"
    by (cases "receive_filename w2")
  obtain r4 w4 where s4: "receive_file w3 tmp = (r4, w4)"
    by (cases "receive_file w3 tmp")
  note f1 = send_request_incoming [OF s1]
  note f2 = receive_status_files [OF s2]
  note f3 = receive_filename_files [OF s3]
  note f4 = receive_file_files [OF s4]
  show ?thesis
    using assms s1 s2 s3 s4 f1 f2 f3 f4
    by (auto simp: request_file_retrieve_def print_def split: sum.splits if_splits)
qed

lemma str_Cons: "str (c # s) = of_char c # str s"
  by (simp add: str_def)

lemma retrieve_other_files_unchanged:
  assumes "request_file_retrieve w user_id version filename = (r, w')"
  shows "(\<forall>name. name \<noteq> tmp \<longrightarrow> files w' name = files w name) \<and>
         (\<forall>remote. stdout w' = stdout w @ [str ''Retrieved '' @ remote @ str '' from server'']
            \<longrightarrow> (\<exists>content. files w' = (files w)(tmp \<mapsto> content)))"
  using request_file_retrieve_cases [OF assms]
  by (auto simp: str_Cons)







subsection \<open>The orchestrator\<close>

text \<open>The four operations raise nothing but subclasses of \<open>Exception\<close>.\<close>

lemma decode_from_raises: "decode_from bs = Inl e \<Longrightarrow> e = UnicodeDecodeError"
proof (induction bs rule: decode_from.induct)
  case (1 bs)
  from "1.prems" show ?case
    by (subst (asm) decode_from.simps) (auto split: if_splits option.splits sum.splits dest: "1.IH")
qed

lemma send_request_raises:
  "send_request w user_id version op_code filename = (Inl e, w') \<Longrightarrow> is_Exception e"
  by (auto simp: send_request_def sock_send_def
      split: if_splits sum.splits
      dest!: struct_pack_raises encode_raises get_file_bytes_raises simp del: struct_pack.simps)

lemma receive_status_raises: "receive_status w = (Inl e, w') \<Longrightarrow> is_Exception e"
  by (auto simp: receive_status_def sock_recv_def struct_unpack_def Let_def
      split: if_splits prod.splits)

lemma receive_filename_raises: "receive_filename w = (Inl e, w') \<Longrightarrow> is_Exception e"
  by (auto simp: receive_filename_def sock_recv_def struct_unpack_def Let_def decode_def
      split: if_splits prod.splits sum.splits dest!: decode_from_raises)

lemma receive_file_raises: "receive_file w filename = (Inl e, w') \<Longrightarrow> is_Exception e"
  by (auto simp: receive_file_cases split: if_splits prod.splits option.splits
      dest: open_raises_is_Exception)

lemma request_file_save_raises:
  "request_file_save w user_id version filename = (Inl e, w') \<Longrightarrow> is_Exception e"
  by (auto simp: request_file_save_def split: prod.splits sum.splits if_splits
      dest: send_request_raises receive_status_raises receive_filename_raises)

lemma request_file_delete_raises:
  "request_file_delete w user_id version filename = (Inl e, w') \<Longrightarrow> is_Exception e"
  by (auto simp: request_file_delete_def split: prod.splits sum.splits if_splits
      dest: send_request_raises receive_status_raises receive_filename_raises)

lemma request_file_retrieve_raises:
  "request_file_retrieve w user_id version filename = (Inl e, w') \<Longrightarrow> is_Exception e"
  by (auto simp: request_file_retrieve_def split: prod.splits sum.splits if_splits
      dest: send_request_raises receive_status_raises receive_filename_raises receive_file_raises)

lemma request_file_list_raises:
  "request_file_list w user_id version = (Inl e, w') \<Longrightarrow> is_Exception e"
  by (auto simp: request_file_list_def decode_def Let_def
      split: prod.splits sum.splits if_splits
      dest: send_request_raises receive_status_raises receive_filename_raises receive_file_raises
        decode_from_raises get_file_bytes_raises)

text \<open>
  Connecting and the four operations raise nothing but subclasses of \<open>Exception\<close>: run
  through \<open>request\<close>, each of them returns normally when \<open>connect\<close> does the same.
\<close>

lemma request_operations_return:
  assumes "\<forall>e. connect_error w (server_ip, server_port) = Some e \<longrightarrow> is_Exception e"
  shows "fst (request fname request_file_list server_ip server_port user_id version w) = Inr ()"
    and "fst (request fname (\<lambda>w u (v, f). request_file_save w u v f) server_ip server_port
            user_id (version, filename) w) = Inr ()"
    and "fst (request fname (\<lambda>w u (v, f). request_file_retrieve w u v f) server_ip server_port
            user_id (version, filename) w) = Inr ()"
    and "fst (request fname (\<lambda>w u (v, f). request_file_delete w u v f) server_ip server_port
            user_id (version, filename) w) = Inr ()"
  using assms
  by (auto simp: request_def sock_connect_def Let_def
      split: prod.splits sum.splits option.splits
      dest: request_file_list_raises request_file_save_raises request_file_retrieve_raises
        request_file_delete_raises)




end
